theory Spec2Isabelle
  imports Main
begin

section \<open>Data model\<close>

text \<open>
  The persisted entities of \<^verbatim>\<open>blog/models.py\<close> as the views of
  \<^verbatim>\<open>blog/views.py\<close> and migration 0004 use them. Rows are records, a table is
  the list of its rows, a foreign key is the primary key of the row it refers to.
  Time stamps are integers (seconds), \<open>timezone.now()\<close> is a parameter \<open>now\<close>.
\<close>

type_synonym pk = nat
type_synonym datetime = int

record user =
  user_id :: pk
  username :: string
  first_name :: string
  last_name :: string
  email :: string

record category =
  category_id :: pk
  category_slug :: string
  category_is_published :: bool

record post =
  post_id :: pk
  post_title :: string
  post_text :: string
  post_pub_date :: datetime
  post_is_published :: bool
  post_author :: pk
  post_category :: pk
  post_location :: "pk option"
  post_image :: string

record comment =
  comment_id :: pk
  comment_text :: string
  comment_created_at :: datetime
  comment_author :: pk
  comment_post :: pk

record db =
  users :: "user list"
  categories :: "category list"
  posts :: "post list"
  comments :: "comment list"

text \<open>
  Exceptions are values. \<open>Http404\<close> and \<open>PermissionDenied\<close> are what the views raise
  (and the framework turns into the 404 and 403 pages); the others are the
  failures of \<open>QuerySet.get\<close> on several rows, of following a foreign key whose
  row is gone, and of binding an integer beyond the database's range to a query
  (each an unhandled exception, a 500 page).
\<close>

datatype error =
    Http404
  | PermissionDenied
  | MultipleObjectsReturned
  | RelatedObjectDoesNotExist
  | OverflowError

text \<open>
  \<open>get_object_or_404(Model, **lookup)\<close>: the rows that satisfy the lookup; none is
  \<open>Http404\<close>, exactly one is returned, several raise.
\<close>

definition get_object_or_404 :: "('a \<Rightarrow> bool) \<Rightarrow> 'a list \<Rightarrow> error + 'a" where
  "get_object_or_404 lookup rows =
     (case filter lookup rows of
        [] \<Rightarrow> Inl Http404
      | [x] \<Rightarrow> Inr x
      | _ \<Rightarrow> Inl MultipleObjectsReturned)"

text \<open>
  A lookup by the integer key of the URL: \<open>SingleObjectMixin.get_object\<close> with
  \<open>pk_url_kwarg\<close>, and \<open>get_object_or_404(Post, id=self.kwargs["post_id"])\<close>. The
  path converter \<open>int\<close> accepts any run of digits, and the key is bound to the query
  as it is: where no row has the key, a key within the range of the database's
  integers (signed 64 bit, SQLite's \<open>INTEGER\<close>) is \<open>Http404\<close>, and a larger one
  raises \<open>OverflowError\<close>. The key of a stored row is always within the range, so
  the range is looked at for a missing row only.
\<close>

definition max_db_integer :: nat where
  "max_db_integer = 9223372036854775807"

definition get_by_pk :: "('a \<Rightarrow> pk) \<Rightarrow> pk \<Rightarrow> 'a list \<Rightarrow> error + 'a" where
  "get_by_pk key k rows =
     (case get_object_or_404 (\<lambda>r. key r = k) rows of
        Inl Http404 \<Rightarrow> if max_db_integer < k then Inl OverflowError else Inl Http404
      | Inl e \<Rightarrow> Inl e
      | Inr x \<Rightarrow> Inr x)"

text \<open>\<open>post.category\<close>: the row the foreign key refers to.\<close>

definition get_category :: "db \<Rightarrow> pk \<Rightarrow> category option" where
  "get_category d k = find (\<lambda>c. category_id c = k) (categories d)"

text \<open>
  The lookup \<open>category__is_published=True\<close> of a \<open>Post\<close> query: the join with the
  category table keeps a post when a category row with the post's key is published.
\<close>

definition category__is_published :: "db \<Rightarrow> post \<Rightarrow> bool" where
  "category__is_published d p =
     list_ex (\<lambda>c. category_id c = post_category p \<and> category_is_published c) (categories d)"

text \<open>
  \<open>.annotate(comment_count=Count("comments"))\<close> pairs each post with the number of
  comment rows that refer to it; \<open>.order_by("-pub_date")\<close> sorts newest first.
\<close>

definition comment_count :: "db \<Rightarrow> post \<Rightarrow> nat" where
  "comment_count d p = length (filter (\<lambda>c. comment_post c = post_id p) (comments d))"

definition annotate :: "db \<Rightarrow> post list \<Rightarrow> (post \<times> nat) list" where
  "annotate d ps = map (\<lambda>p. (p, comment_count d p)) ps"

definition order_by_pub_date_desc :: "(post \<times> nat) list \<Rightarrow> (post \<times> nat) list" where
  "order_by_pub_date_desc qs = sort_key (\<lambda>(p, n). - post_pub_date p) qs"

section \<open>Visibility predicate (spec 4.1)\<close>

text \<open>
  The predicate in the words of the specification: \<open>post.is_published AND
  post.category.is_published AND post.pub_date <= now\<close>, where \<open>post.category\<close>
  follows the foreign key.
\<close>

definition is_visible_to_public :: "db \<Rightarrow> post \<Rightarrow> datetime \<Rightarrow> bool" where
  "is_visible_to_public d p now =
     (post_is_published p
      \<and> (case get_category d (post_category p) of
           None \<Rightarrow> False
         | Some c \<Rightarrow> category_is_published c)
      \<and> post_pub_date p \<le> now)"

section \<open>Listing views\<close>

text \<open>\<open>PostListView.get_queryset\<close> (views.py, lines 87-97).\<close>

definition PostListView_get_queryset :: "db \<Rightarrow> datetime \<Rightarrow> (post \<times> nat) list" where
  "PostListView_get_queryset d now =
     order_by_pub_date_desc
       (annotate d
         (filter (\<lambda>p. post_is_published p
                      \<and> category__is_published d p
                      \<and> post_pub_date p \<le> now)
            (posts d)))"

text \<open>
  \<open>CategoryPostsView.get_queryset\<close> (views.py, lines 214-230): the category is
  fetched by slug among the published ones, then the posts are filtered.
\<close>

definition CategoryPostsView_get_queryset ::
  "db \<Rightarrow> string \<Rightarrow> datetime \<Rightarrow> error + (post \<times> nat) list" where
  "CategoryPostsView_get_queryset d slug now =
     (case get_object_or_404
             (\<lambda>c. category_slug c = slug \<and> category_is_published c) (categories d) of
        Inl e \<Rightarrow> Inl e
      | Inr cat \<Rightarrow>
          Inr (order_by_pub_date_desc
                (annotate d
                  (filter (\<lambda>p. post_category p = category_id cat
                               \<and> post_is_published p
                               \<and> category__is_published d p
                               \<and> post_pub_date p \<le> now)
                     (posts d)))))"

section \<open>Requests, responses, URLs\<close>

text \<open>
  A request carries \<open>request.user\<close> (\<open>None\<close> is \<open>AnonymousUser\<close>), the method, the
  path, and the outcome of the view's form on the submitted data: \<open>form.is_valid()\<close>
  is Django's \<open>ModelForm\<close> validation, so \<open>request_POST\<close> is \<open>Some cleaned_data\<close> for
  a valid submission and \<open>None\<close> for an invalid one.
\<close>

datatype http_method = GET | POST

record 'a request =
  request_user :: "user option"
  request_method :: http_method
  request_path :: string
  request_POST :: "'a option"

text \<open>
  A response is a rendered template (200), a redirect to a URL (302), or the
  redirect \<open>redirect_to_login(path)\<close> to the login page of the settings.
\<close>

datatype response =
    TemplateResponse string
  | HttpResponseRedirect string
  | RedirectToLogin string

definition is_authenticated :: "'a request \<Rightarrow> bool" where
  "is_authenticated r = (request_user r \<noteq> None)"

text \<open>
  \<open>request.user == obj.author\<close>: model instances are equal when their primary keys
  are; \<open>AnonymousUser\<close> equals no \<open>User\<close>.
\<close>

definition user_is :: "user option \<Rightarrow> pk \<Rightarrow> bool" where
  "user_is u k = (case u of None \<Rightarrow> False | Some w \<Rightarrow> user_id w = k)"

text \<open>Python's \<open>str\<close> of a non-negative integer, as \<open>reverse\<close> and the f-strings apply it.\<close>

fun str_nat :: "nat \<Rightarrow> string" where
  "str_nat n =
     (if n < 10 then [''0123456789'' ! n]
      else str_nat (n div 10) @ [''0123456789'' ! (n mod 10)])"

declare str_nat.simps [simp del]

text \<open>
  Modelled from the spec: \<^verbatim>\<open>blog/urls.py\<close> is absent; section 6 of the
  specification gives the paths of the routes \<open>blog:index\<close>, \<open>blog:post_detail\<close> and
  \<open>blog:profile\<close> that \<open>reverse\<close> resolves.
\<close>

definition reverse_index :: string where
  "reverse_index = ''/''"

definition reverse_post_detail :: "pk \<Rightarrow> string" where
  "reverse_post_detail k = ''/posts/'' @ str_nat k @ ''/''"

definition reverse_profile :: "string \<Rightarrow> string" where
  "reverse_profile name = ''/profile/'' @ name @ ''/''"

text \<open>
  \<open>AccessMixin.handle_no_permission\<close>: an authenticated user gets
  \<open>PermissionDenied\<close>, an anonymous one is sent to the login page.
  \<open>LoginRequiredMixin.dispatch\<close> and \<open>UserPassesTestMixin.dispatch\<close> run their check
  and then the rest of the dispatch chain (\<open>rest\<close>).
\<close>

definition handle_no_permission :: "'a request \<Rightarrow> error + response" where
  "handle_no_permission r =
     (if is_authenticated r then Inl PermissionDenied
      else Inr (RedirectToLogin (request_path r)))"

definition LoginRequiredMixin_dispatch ::
  "'a request \<Rightarrow> db \<Rightarrow> (error + response) \<times> db \<Rightarrow> (error + response) \<times> db" where
  "LoginRequiredMixin_dispatch r d rest =
     (if \<not> is_authenticated r then (handle_no_permission r, d) else rest)"

definition UserPassesTestMixin_dispatch ::
  "error + bool \<Rightarrow> 'a request \<Rightarrow> db \<Rightarrow> (error + response) \<times> db \<Rightarrow> (error + response) \<times> db" where
  "UserPassesTestMixin_dispatch user_test_result r d rest =
     (case user_test_result of
        Inl e \<Rightarrow> (Inl e, d)
      | Inr ok \<Rightarrow> if \<not> ok then (handle_no_permission r, d) else rest)"

text \<open>An \<open>AutoField\<close> key for a new row: larger than every key of the table.\<close>

definition new_pk :: "pk list \<Rightarrow> pk" where
  "new_pk ks = Suc (foldr max ks 0)"

section \<open>Profile\<close>

text \<open>\<open>ProfileView.get_queryset\<close> (views.py, lines 25-48).\<close>

definition ProfileView_get_queryset ::
  "db \<Rightarrow> user option \<Rightarrow> string \<Rightarrow> datetime \<Rightarrow> error + (post \<times> nat) list" where
  "ProfileView_get_queryset d viewer name now =
     (case get_object_or_404 (\<lambda>u. username u = name) (users d) of
        Inl e \<Rightarrow> Inl e
      | Inr profile \<Rightarrow>
          (let base_query = filter (\<lambda>p. post_author p = user_id profile) (posts d) in
           if user_is viewer (user_id profile)
           then Inr (order_by_pub_date_desc (annotate d base_query))
           else Inr (order_by_pub_date_desc
                      (annotate d
                        (filter (\<lambda>p. post_is_published p
                                     \<and> category__is_published d p
                                     \<and> post_pub_date p \<le> now)
                           base_query)))))"

text \<open>
  \<open>ProfileEditView\<close> (views.py, lines 58-75): the edited object is \<open>request.user\<close>;
  a valid form saves first name, last name and email into the user's row.
\<close>

record profile_form =
  form_first_name :: string
  form_last_name :: string
  form_email :: string

definition ProfileEditView_dispatch ::
  "db \<Rightarrow> profile_form request \<Rightarrow> (error + response) \<times> db" where
  "ProfileEditView_dispatch d r =
     LoginRequiredMixin_dispatch r d
       (case request_user r of
          None \<Rightarrow> (handle_no_permission r, d)
        | Some me \<Rightarrow>
            (case request_method r of
               GET \<Rightarrow> (Inr (TemplateResponse ''blog/user.html''), d)
             | POST \<Rightarrow>
                 (case request_POST r of
                    None \<Rightarrow> (Inr (TemplateResponse ''blog/user.html''), d)
                  | Some f \<Rightarrow>
                      (let obj = me\<lparr>first_name := form_first_name f,
                                     last_name := form_last_name f,
                                     email := form_email f\<rparr>
                       in (Inr (HttpResponseRedirect (reverse_profile (username me))),
                           d\<lparr>users := map (\<lambda>u. if user_id u = user_id me then obj else u)
                                          (users d)\<rparr>)))))"

section \<open>Post detail\<close>

text \<open>
  \<open>PostDetailView.get_object\<close> (views.py, lines 110-120). The condition is
  evaluated left to right as Python's \<open>or\<close> does: the category is read only for a
  published post.
\<close>

definition PostDetailView_get_object ::
  "db \<Rightarrow> user option \<Rightarrow> pk \<Rightarrow> datetime \<Rightarrow> error + post" where
  "PostDetailView_get_object d viewer k now =
     (case get_by_pk post_id k (posts d) of
        Inl e \<Rightarrow> Inl e
      | Inr obj \<Rightarrow>
          (case (if \<not> post_is_published obj then Inr True
                 else (case get_category d (post_category obj) of
                         None \<Rightarrow> Inl RelatedObjectDoesNotExist
                       | Some c \<Rightarrow>
                           Inr (\<not> category_is_published c \<or> post_pub_date obj > now))) of
             Inl e \<Rightarrow> Inl e
           | Inr hidden \<Rightarrow>
               if hidden then (if \<not> user_is viewer (post_author obj) then Inl Http404 else Inr obj)
               else Inr obj))"

text \<open>
  The comment form: \<open>CommentForm()\<close> without data is the unbound, empty form;
  \<open>CommentForm(data)\<close> is bound to a submitted text.
\<close>

datatype comment_form = CommentForm "string option"

text \<open>
  Modelled from the spec: \<^verbatim>\<open>blog/models.py\<close> with the \<open>Comment\<close> model, its
  related name \<open>comments\<close> and its default ordering is absent (migration 0004 creates
  the table without either); section 4.3 of the specification orders the comments of
  a post by creation time, ascending.
\<close>

definition Comment_Meta_ordering :: "comment list \<Rightarrow> comment list" where
  "Comment_Meta_ordering cs = sort_key comment_created_at cs"

text \<open>
  \<open>post.comments\<close> is the related manager: the comment rows whose foreign key is the
  post, in the model's ordering. \<open>.select_related("author")\<close> joins each row with
  the user row of its author.
\<close>

definition post_comments :: "db \<Rightarrow> post \<Rightarrow> comment list" where
  "post_comments d obj =
     Comment_Meta_ordering (filter (\<lambda>c. comment_post c = post_id obj) (comments d))"

definition select_related_author :: "db \<Rightarrow> comment list \<Rightarrow> (comment \<times> user) list" where
  "select_related_author d cs =
     concat (map (\<lambda>c. map (Pair c) (filter (\<lambda>u. user_id u = comment_author c) (users d))) cs)"

record detail_context =
  context_object :: post
  context_form :: comment_form
  context_comments :: "(comment \<times> user) list"

text \<open>\<open>PostDetailView.get_context_data\<close> (views.py, lines 122-127) and the view's \<open>get\<close>.\<close>

definition PostDetailView_get_context_data :: "db \<Rightarrow> post \<Rightarrow> detail_context" where
  "PostDetailView_get_context_data d obj =
     \<lparr>context_object = obj,
      context_form = CommentForm None,
      context_comments = select_related_author d (post_comments d obj)\<rparr>"

definition PostDetailView_get ::
  "db \<Rightarrow> user option \<Rightarrow> pk \<Rightarrow> datetime \<Rightarrow> error + detail_context" where
  "PostDetailView_get d viewer k now =
     (case PostDetailView_get_object d viewer k now of
        Inl e \<Rightarrow> Inl e
      | Inr obj \<Rightarrow> Inr (PostDetailView_get_context_data d obj))"

section \<open>Post create, edit, delete\<close>

text \<open>The cleaned data of \<open>PostForm\<close> (forms.py): the six fields of its \<open>Meta.fields\<close>.\<close>

record post_form =
  form_title :: string
  form_text :: string
  form_pub_date :: datetime
  form_location :: "pk option"
  form_category :: pk
  form_image :: string

text \<open>
  \<open>PostCreateView\<close> (views.py, lines 131-148). \<open>is_published\<close> is not a field of the
  form, so a new post takes the default of the model, a parameter here
  (\<^verbatim>\<open>blog/models.py\<close> is absent).
\<close>

definition PostCreateView_dispatch ::
  "bool \<Rightarrow> db \<Rightarrow> post_form request \<Rightarrow> (error + response) \<times> db" where
  "PostCreateView_dispatch is_published_default d r =
     LoginRequiredMixin_dispatch r d
       (case request_user r of
          None \<Rightarrow> (handle_no_permission r, d)
        | Some me \<Rightarrow>
            (case request_method r of
               GET \<Rightarrow> (Inr (TemplateResponse ''blog/create.html''), d)
             | POST \<Rightarrow>
                 (case request_POST r of
                    None \<Rightarrow> (Inr (TemplateResponse ''blog/create.html''), d)
                  | Some f \<Rightarrow>
                      (let obj = \<lparr>post_id = new_pk (map post_id (posts d)),
                                  post_title = form_title f,
                                  post_text = form_text f,
                                  post_pub_date = form_pub_date f,
                                  post_is_published = is_published_default,
                                  post_author = user_id me,
                                  post_category = form_category f,
                                  post_location = form_location f,
                                  post_image = form_image f\<rparr>
                       in (Inr (HttpResponseRedirect (reverse_profile (username me))),
                           d\<lparr>posts := posts d @ [obj]\<rparr>)))))"

text \<open>
  \<open>PostEditView.get_object\<close> (views.py, lines 161-166): the post, or \<open>None\<close> when
  the requester is not its author.
\<close>

definition PostEditView_get_object ::
  "db \<Rightarrow> 'a request \<Rightarrow> pk \<Rightarrow> error + post option" where
  "PostEditView_get_object d r k =
     (case get_by_pk post_id k (posts d) of
        Inl e \<Rightarrow> Inl e
      | Inr obj \<Rightarrow> if \<not> user_is (request_user r) (post_author obj) then Inr None else Inr (Some obj))"

text \<open>
  \<open>PostEditView.dispatch\<close> (views.py, lines 168-174) is the first \<open>dispatch\<close> of the
  class: it fetches the object before \<open>super().dispatch\<close> reaches the login check
  of \<open>LoginRequiredMixin\<close> and then \<open>UpdateView\<close>, whose \<open>get\<close> renders the form
  and whose \<open>post\<close> saves a valid form and redirects to \<open>get_success_url()\<close>.
\<close>

definition PostEditView_dispatch ::
  "db \<Rightarrow> post_form request \<Rightarrow> pk \<Rightarrow> (error + response) \<times> db" where
  "PostEditView_dispatch d r k =
     (case PostEditView_get_object d r k of
        Inl e \<Rightarrow> (Inl e, d)
      | Inr None \<Rightarrow> (Inr (HttpResponseRedirect (reverse_post_detail k)), d)
      | Inr (Some object) \<Rightarrow>
          LoginRequiredMixin_dispatch r d
            (case request_method r of
               GET \<Rightarrow> (Inr (TemplateResponse ''blog/create.html''), d)
             | POST \<Rightarrow>
                 (case request_POST r of
                    None \<Rightarrow> (Inr (TemplateResponse ''blog/create.html''), d)
                  | Some f \<Rightarrow>
                      (let obj = object\<lparr>post_title := form_title f,
                                         post_text := form_text f,
                                         post_pub_date := form_pub_date f,
                                         post_location := form_location f,
                                         post_category := form_category f,
                                         post_image := form_image f\<rparr>
                       in (Inr (HttpResponseRedirect (reverse_post_detail (post_id obj))),
                           d\<lparr>posts := map (\<lambda>p. if post_id p = post_id obj then obj else p)
                                          (posts d)\<rparr>)))))"

text \<open>
  \<open>PostDeleteView\<close> (views.py, lines 185-202). Deleting a post deletes its
  comments (\<open>on_delete=CASCADE\<close> in migration 0004).
\<close>

definition PostDeleteView_test_func :: "db \<Rightarrow> 'a request \<Rightarrow> pk \<Rightarrow> error + bool" where
  "PostDeleteView_test_func d r k =
     (case get_by_pk post_id k (posts d) of
        Inl e \<Rightarrow> Inl e
      | Inr post \<Rightarrow> Inr (user_is (request_user r) (post_author post)))"

definition PostDeleteView_dispatch ::
  "db \<Rightarrow> unit request \<Rightarrow> pk \<Rightarrow> (error + response) \<times> db" where
  "PostDeleteView_dispatch d r k =
     LoginRequiredMixin_dispatch r d
       (UserPassesTestMixin_dispatch (PostDeleteView_test_func d r k) r d
          (case get_by_pk post_id k (posts d) of
             Inl e \<Rightarrow> (Inl e, d)
           | Inr object \<Rightarrow>
               (case request_method r of
                  GET \<Rightarrow> (Inr (TemplateResponse ''blog/create.html''), d)
                | POST \<Rightarrow>
                    (Inr (HttpResponseRedirect reverse_index),
                     d\<lparr>posts := filter (\<lambda>p. post_id p \<noteq> post_id object) (posts d),
                       comments := filter (\<lambda>c. comment_post c \<noteq> post_id object)
                                     (comments d)\<rparr>))))"

section \<open>Comment create, edit, delete\<close>

text \<open>
  \<open>CommentCreateView\<close> (views.py, lines 240-262). The cleaned data of \<open>CommentForm\<close>
  is its one field \<open>text\<close>. \<open>post\<close> validates the form first; \<open>form_valid\<close> then
  resolves the post, sets post and author, and the save gives the row a new key and
  the creation time \<open>now\<close> (\<open>auto_now_add\<close>).
\<close>

definition CommentCreateView_get_success_url :: "pk \<Rightarrow> comment \<Rightarrow> string" where
  "CommentCreateView_get_success_url kwargs_post_id object =
     reverse_post_detail kwargs_post_id @ ''#comment'' @ str_nat (comment_id object)"

definition CommentCreateView_dispatch ::
  "db \<Rightarrow> string request \<Rightarrow> pk \<Rightarrow> datetime \<Rightarrow> (error + response) \<times> db" where
  "CommentCreateView_dispatch d r kwargs_post_id now =
     LoginRequiredMixin_dispatch r d
       (case request_user r of
          None \<Rightarrow> (handle_no_permission r, d)
        | Some me \<Rightarrow>
            (case request_method r of
               GET \<Rightarrow> (Inr (TemplateResponse ''includes/comments.html''), d)
             | POST \<Rightarrow>
                 (case request_POST r of
                    None \<Rightarrow> (Inr (TemplateResponse ''includes/comments.html''), d)
                  | Some txt \<Rightarrow>
                      (case get_by_pk post_id kwargs_post_id (posts d) of
                         Inl e \<Rightarrow> (Inl e, d)
                       | Inr post \<Rightarrow>
                           (let object = \<lparr>comment_id = new_pk (map comment_id (comments d)),
                                          comment_text = txt,
                                          comment_created_at = now,
                                          comment_author = user_id me,
                                          comment_post = post_id post\<rparr>
                            in (Inr (HttpResponseRedirect
                                      (CommentCreateView_get_success_url kwargs_post_id object)),
                                d\<lparr>comments := comments d @ [object]\<rparr>))))))"

text \<open>
  \<open>CommentEditView\<close> (views.py, lines 266-289). The object is fetched by
  \<open>pk_url_kwarg = "comment_id"\<close>; the \<open>post_id\<close> of the URL is a parameter of the
  view that nothing reads. In \<open>get_success_url\<close>, \<open>self.object.post.id\<close> is the key
  the comment's foreign key holds.
\<close>

definition CommentEditView_test_func :: "db \<Rightarrow> 'a request \<Rightarrow> pk \<Rightarrow> error + bool" where
  "CommentEditView_test_func d r kwargs_comment_id =
     (case get_by_pk comment_id kwargs_comment_id (comments d) of
        Inl e \<Rightarrow> Inl e
      | Inr comment \<Rightarrow> Inr (user_is (request_user r) (comment_author comment)))"

definition CommentEditView_get_success_url :: "comment \<Rightarrow> string" where
  "CommentEditView_get_success_url object =
     reverse_post_detail (comment_post object) @ ''#comment_'' @ str_nat (comment_id object)"

definition CommentEditView_dispatch ::
  "db \<Rightarrow> string request \<Rightarrow> pk \<Rightarrow> pk \<Rightarrow> (error + response) \<times> db" where
  "CommentEditView_dispatch d r kwargs_post_id kwargs_comment_id =
     LoginRequiredMixin_dispatch r d
       (UserPassesTestMixin_dispatch (CommentEditView_test_func d r kwargs_comment_id) r d
          (case get_by_pk comment_id kwargs_comment_id (comments d) of
             Inl e \<Rightarrow> (Inl e, d)
           | Inr object \<Rightarrow>
               (case request_method r of
                  GET \<Rightarrow> (Inr (TemplateResponse ''blog/comment.html''), d)
                | POST \<Rightarrow>
                    (case request_POST r of
                       None \<Rightarrow> (Inr (TemplateResponse ''blog/comment.html''), d)
                     | Some txt \<Rightarrow>
                         (let obj = object\<lparr>comment_text := txt\<rparr>
                          in (Inr (HttpResponseRedirect (CommentEditView_get_success_url obj)),
                              d\<lparr>comments :=
                                   map (\<lambda>c. if comment_id c = comment_id obj then obj else c)
                                     (comments d)\<rparr>))))))"

text \<open>
  \<open>CommentDeleteView\<close> (views.py, lines 293-313): \<open>get\<close> renders the confirmation
  page, \<open>post\<close> deletes the row and redirects to \<open>get_success_url()\<close>, which is
  built from the \<open>post_id\<close> of the URL.
\<close>

definition CommentDeleteView_test_func :: "db \<Rightarrow> 'a request \<Rightarrow> pk \<Rightarrow> error + bool" where
  "CommentDeleteView_test_func d r kwargs_comment_id =
     (case get_by_pk comment_id kwargs_comment_id (comments d) of
        Inl e \<Rightarrow> Inl e
      | Inr comment \<Rightarrow> Inr (user_is (request_user r) (comment_author comment)))"

definition CommentDeleteView_get_success_url :: "pk \<Rightarrow> string" where
  "CommentDeleteView_get_success_url kwargs_post_id = reverse_post_detail kwargs_post_id"

definition CommentDeleteView_dispatch ::
  "db \<Rightarrow> unit request \<Rightarrow> pk \<Rightarrow> pk \<Rightarrow> (error + response) \<times> db" where
  "CommentDeleteView_dispatch d r kwargs_post_id kwargs_comment_id =
     LoginRequiredMixin_dispatch r d
       (UserPassesTestMixin_dispatch (CommentDeleteView_test_func d r kwargs_comment_id) r d
          (case get_by_pk comment_id kwargs_comment_id (comments d) of
             Inl e \<Rightarrow> (Inl e, d)
           | Inr object \<Rightarrow>
               (case request_method r of
                  GET \<Rightarrow> (Inr (TemplateResponse ''blog/comment.html''), d)
                | POST \<Rightarrow>
                    (Inr (HttpResponseRedirect (CommentDeleteView_get_success_url kwargs_post_id)),
                     d\<lparr>comments := filter (\<lambda>c. comment_id c \<noteq> comment_id object)
                                       (comments d)\<rparr>))))"

section \<open>An example database\<close>

text \<open>
  Two users, a published and an unpublished category, a public post, a draft and a
  future-dated post of alice, and two comments on the public post, stored newest
  first.
\<close>

definition ex_alice :: user where
  "ex_alice = \<lparr>user_id = 1, username = ''alice'', first_name = ''Alice'',
                last_name = ''A'', email = ''a@example.org''\<rparr>"

definition ex_bob :: user where
  "ex_bob = \<lparr>user_id = 2, username = ''bob'', first_name = ''Bob'',
              last_name = ''B'', email = ''b@example.org''\<rparr>"

definition ex_travel :: category where
  "ex_travel = \<lparr>category_id = 1, category_slug = ''travel'', category_is_published = True\<rparr>"

definition ex_secret :: category where
  "ex_secret = \<lparr>category_id = 2, category_slug = ''secret'', category_is_published = False\<rparr>"

definition ex_public_post :: post where
  "ex_public_post = \<lparr>post_id = 1, post_title = ''Hello'', post_text = ''First'',
     post_pub_date = 10, post_is_published = True, post_author = 1, post_category = 1,
     post_location = None, post_image = ''''\<rparr>"

definition ex_draft :: post where
  "ex_draft = \<lparr>post_id = 5, post_title = ''Draft'', post_text = ''Later'',
     post_pub_date = 10, post_is_published = False, post_author = 1, post_category = 1,
     post_location = None, post_image = ''''\<rparr>"

definition ex_future_post :: post where
  "ex_future_post = \<lparr>post_id = 7, post_title = ''Soon'', post_text = ''Wait'',
     post_pub_date = 500, post_is_published = True, post_author = 1, post_category = 1,
     post_location = None, post_image = ''''\<rparr>"

definition ex_comment_late :: comment where
  "ex_comment_late = \<lparr>comment_id = 3, comment_text = ''Nice'', comment_created_at = 40,
     comment_author = 2, comment_post = 1\<rparr>"

definition ex_comment_early :: comment where
  "ex_comment_early = \<lparr>comment_id = 4, comment_text = ''Thanks'', comment_created_at = 20,
     comment_author = 1, comment_post = 1\<rparr>"

definition ex_db :: db where
  "ex_db = \<lparr>users = [ex_alice, ex_bob],
            categories = [ex_travel, ex_secret],
            posts = [ex_public_post, ex_draft, ex_future_post],
            comments = [ex_comment_late, ex_comment_early]\<rparr>"

definition ex_request :: "user option \<Rightarrow> http_method \<Rightarrow> 'a option \<Rightarrow> 'a request" where
  "ex_request u m f =
     \<lparr>request_user = u, request_method = m, request_path = ''/here/'', request_POST = f\<rparr>"

lemmas ex_defs = ex_alice_def ex_bob_def ex_travel_def ex_secret_def ex_public_post_def
  ex_draft_def ex_future_post_def ex_comment_late_def ex_comment_early_def ex_db_def
  ex_request_def

definition ex_post_form :: post_form where
  "ex_post_form = \<lparr>form_title = ''Hacked'', form_text = ''Changed'', form_pub_date = 0,
     form_location = None, form_category = 2, form_image = ''''\<rparr>"

section \<open>Helper lemmas\<close>

lemma find_distinct_key:
  "distinct (map key rows) \<Longrightarrow> x \<in> set rows \<Longrightarrow> find (\<lambda>r. key r = key x) rows = Some x"
  by (induction rows) (auto simp: rev_image_eqI)

lemma filter_distinct_key:
  "distinct (map key rows) \<Longrightarrow> x \<in> set rows \<Longrightarrow> filter (\<lambda>r. key r = key x) rows = [x]"
  by (induction rows) (auto simp: rev_image_eqI filter_empty_conv)

lemma get_object_or_404_pk:
  "distinct (map key rows) \<Longrightarrow> x \<in> set rows \<Longrightarrow>
   get_object_or_404 (\<lambda>r. key r = key x) rows = Inr x"
  by (simp add: get_object_or_404_def filter_distinct_key)

lemma get_object_or_404_absent:
  "k \<notin> key ` set rows \<Longrightarrow> get_object_or_404 (\<lambda>r. key r = k) rows = Inl Http404"
proof -
  assume "k \<notin> key ` set rows"
  then have "filter (\<lambda>r. key r = k) rows = []"
    by (auto simp: filter_empty_conv)
  then show ?thesis by (simp add: get_object_or_404_def)
qed

lemma get_object_or_404_Inr:
  "get_object_or_404 lookup rows = Inr x \<Longrightarrow> x \<in> set rows \<and> lookup x"
proof -
  assume a: "get_object_or_404 lookup rows = Inr x"
  then have "filter lookup rows = [x]"
    by (auto simp: get_object_or_404_def split: list.splits)
  then have "x \<in> set (filter lookup rows)" by simp
  then show ?thesis by simp
qed

lemma get_by_pk_stored:
  "distinct (map key rows) \<Longrightarrow> x \<in> set rows \<Longrightarrow> get_by_pk key (key x) rows = Inr x"
  by (simp add: get_by_pk_def get_object_or_404_pk)

lemma get_by_pk_Inr:
  "get_by_pk key k rows = Inr x \<Longrightarrow> x \<in> set rows \<and> key x = k"
proof -
  assume "get_by_pk key k rows = Inr x"
  then have "get_object_or_404 (\<lambda>r. key r = k) rows = Inr x"
    by (auto simp: get_by_pk_def split: sum.splits error.splits if_splits)
  then show ?thesis by (rule get_object_or_404_Inr)
qed

lemma get_by_pk_missing:
  assumes "k \<notin> key ` set rows"
  shows "get_by_pk key k rows = (if max_db_integer < k then Inl OverflowError else Inl Http404)"
proof -
  have "get_object_or_404 (\<lambda>r. key r = k) rows = Inl Http404"
    using assms by (rule get_object_or_404_absent)
  then show ?thesis by (simp add: get_by_pk_def)
qed

lemma PostEditView_dispatch_missing:
  assumes "k \<notin> post_id ` set (posts d)"
  shows "PostEditView_dispatch d r k
           = (if max_db_integer < k then (Inl OverflowError, d) else (Inl Http404, d))"
  using get_by_pk_missing [OF assms]
  by (simp add: PostEditView_dispatch_def PostEditView_get_object_def)

lemma category_join_visible:
  assumes "distinct (map category_id (categories d))"
  shows "(post_is_published p \<and> category__is_published d p \<and> post_pub_date p \<le> now)
         = is_visible_to_public d p now"
proof -
  have "category__is_published d p
        = (case get_category d (post_category p) of
             None \<Rightarrow> False | Some c \<Rightarrow> category_is_published c)"
  proof (cases "get_category d (post_category p)")
    case None
    then have "\<forall>c \<in> set (categories d). category_id c \<noteq> post_category p"
      by (simp add: get_category_def find_None_iff)
    then have "\<not> category__is_published d p"
      by (simp add: category__is_published_def list_ex_iff)
    with None show ?thesis by simp
  next
    case (Some c)
    then have c: "c \<in> set (categories d)" "category_id c = post_category p"
      by (auto simp: get_category_def find_Some_iff)
    have uniq: "c' = c" if "c' \<in> set (categories d)" "category_id c' = post_category p" for c'
    proof -
      have "inj_on category_id (set (categories d))"
        using assms by (simp add: distinct_map)
      then show ?thesis using that c by (simp add: inj_on_def)
    qed
    have "category__is_published d p = category_is_published c"
    proof
      assume "category__is_published d p"
      then obtain c' where "c' \<in> set (categories d)" "category_id c' = post_category p"
        "category_is_published c'"
        unfolding category__is_published_def list_ex_iff by blast
      then show "category_is_published c" using uniq by blast
    next
      assume "category_is_published c"
      then show "category__is_published d p"
        unfolding category__is_published_def list_ex_iff using c by blast
    qed
    with Some show ?thesis by simp
  qed
  then show ?thesis by (simp add: is_visible_to_public_def)
qed

lemma posts_of_listing:
  "fst ` set (order_by_pub_date_desc (annotate d ps)) = set ps"
  by (force simp: order_by_pub_date_desc_def annotate_def)

lemma get_object_or_404_unique:
  assumes "distinct (map key rows)" "x \<in> set rows" "Q x"
  shows "get_object_or_404 (\<lambda>r. key r = key x \<and> Q r) rows = Inr x"
proof -
  have "filter (\<lambda>r. key r = key x \<and> Q r) rows = filter Q (filter (\<lambda>r. key r = key x) rows)"
    by (simp add: conj_commute)
  also have "\<dots> = [x]"
    using assms by (simp add: filter_distinct_key)
  finally show ?thesis by (simp add: get_object_or_404_def)
qed

lemma anonymous_no_permission:
  "request_user r = None \<Longrightarrow>
   LoginRequiredMixin_dispatch r d rest = (Inr (RedirectToLogin (request_path r)), d)"
  by (simp add: LoginRequiredMixin_dispatch_def handle_no_permission_def is_authenticated_def)

lemma authenticated_dispatch:
  "request_user r = Some v \<Longrightarrow> LoginRequiredMixin_dispatch r d rest = rest"
  by (simp add: LoginRequiredMixin_dispatch_def is_authenticated_def)

lemma reverse_post_detail_1: "reverse_post_detail 1 = ''/posts/1/''"
  by (simp add: reverse_post_detail_def str_nat.simps)

lemma PostEditView_dispatch_non_author:
  assumes "distinct (map post_id (posts d))"
    and "p \<in> set (posts d)"
    and "\<not> user_is (request_user r) (post_author p)"
  shows "PostEditView_dispatch d r (post_id p)
           = (Inr (HttpResponseRedirect (reverse_post_detail (post_id p))), d)"
proof -
  have "get_by_pk post_id (post_id p) (posts d) = Inr p"
    using assms(1,2) by (rule get_by_pk_stored)
  then have "PostEditView_get_object d r (post_id p) = Inr None"
    using assms(3) by (simp add: PostEditView_get_object_def)
  then show ?thesis by (simp add: PostEditView_dispatch_def)
qed

lemma CommentDeleteView_dispatch_non_author:
  assumes "distinct (map comment_id (comments d))"
    and "c \<in> set (comments d)"
    and "request_user r = Some v"
    and "user_id v \<noteq> comment_author c"
  shows "CommentDeleteView_dispatch d r k (comment_id c) = (Inl PermissionDenied, d)"
proof -
  have "get_by_pk comment_id (comment_id c) (comments d) = Inr c"
    using assms(1,2) by (rule get_by_pk_stored)
  then have "CommentDeleteView_test_func d r (comment_id c) = Inr False"
    using assms(3,4) by (simp add: CommentDeleteView_test_func_def user_is_def)
  then show ?thesis
    using assms(3)
    by (simp add: CommentDeleteView_dispatch_def authenticated_dispatch
        UserPassesTestMixin_dispatch_def handle_no_permission_def is_authenticated_def)
qed

lemma foldr_max_upper: "k \<in> set ks \<Longrightarrow> k \<le> foldr max ks (0::nat)"
  by (induction ks) (auto simp: max_def)

lemma new_pk_fresh: "new_pk ks \<notin> set ks"
proof
  assume "new_pk ks \<in> set ks"
  then have "new_pk ks \<le> foldr max ks 0" by (rule foldr_max_upper)
  then show False by (simp add: new_pk_def)
qed

lemma str_nat_digits: "set (str_nat n) \<subseteq> set ''0123456789''"
proof (induction n rule: str_nat.induct)
  case (1 n)
  have d: "''0123456789'' ! m \<in> set ''0123456789''" if "m < 10" for m :: nat
    using that by (intro nth_mem) simp
  show ?case
  proof (cases "n < 10")
    case True
    then show ?thesis
      using d [of n] by (subst str_nat.simps) simp
  next
    case False
    have "n mod 10 < 10" by simp
    then have "''0123456789'' ! (n mod 10) \<in> set ''0123456789''" by (rule d)
    with False 1 show ?thesis
      by (subst str_nat.simps) simp
  qed
qed

lemma reverse_post_detail_no_fragment: "CHR ''#'' \<notin> set (reverse_post_detail k)"
proof -
  have "CHR ''#'' \<notin> set ''0123456789''" by simp
  then have "CHR ''#'' \<notin> set (str_nat k)" using str_nat_digits [of k] by blast
  then show ?thesis by (simp add: reverse_post_detail_def)
qed

lemma CommentCreateView_dispatch_valid:
  assumes "distinct (map post_id (posts d))"
    and "p \<in> set (posts d)"
    and "request_user r = Some u"
    and "request_method r = POST"
    and "request_POST r = Some txt"
  shows "CommentCreateView_dispatch d r (post_id p) now
           = (Inr (HttpResponseRedirect
                    (reverse_post_detail (post_id p) @ ''#comment''
                       @ str_nat (new_pk (map comment_id (comments d))))),
              d\<lparr>comments := comments d @
                 [\<lparr>comment_id = new_pk (map comment_id (comments d)),
                   comment_text = txt,
                   comment_created_at = now,
                   comment_author = user_id u,
                   comment_post = post_id p\<rparr>]\<rparr>)"
proof -
  have "get_by_pk post_id (post_id p) (posts d) = Inr p"
    using assms(1,2) by (rule get_by_pk_stored)
  then show ?thesis
    using assms(3-5)
    by (simp add: CommentCreateView_dispatch_def authenticated_dispatch
        CommentCreateView_get_success_url_def Let_def)
qed

lemma select_related_author_fst:
  assumes "distinct (map user_id (users d))"
    and "\<forall>c \<in> set cs. comment_author c \<in> user_id ` set (users d)"
  shows "map fst (select_related_author d cs) = cs"
  using assms(2)
proof (induction cs)
  case Nil
  then show ?case by (simp add: select_related_author_def)
next
  case (Cons c cs)
  then obtain u where u: "u \<in> set (users d)" "comment_author c = user_id u" by auto
  have "filter (\<lambda>w. user_id w = comment_author c) (users d) = [u]"
    unfolding u(2) using assms(1) u(1) by (rule filter_distinct_key)
  moreover have "map fst (select_related_author d cs) = cs"
    using Cons by simp
  ultimately show ?case
    by (simp add: select_related_author_def)
qed

lemma select_related_author_resolved:
  "(c, u) \<in> set (select_related_author d cs) \<Longrightarrow>
   u \<in> set (users d) \<and> user_id u = comment_author c"
  by (auto simp: select_related_author_def)

lemma PostDetailView_get_Inr:
  assumes "PostDetailView_get d viewer k now = Inr ctx"
  shows "\<exists>obj. obj \<in> set (posts d) \<and> post_id obj = k
           \<and> ctx = PostDetailView_get_context_data d obj"
proof -
  obtain obj where o: "PostDetailView_get_object d viewer k now = Inr obj"
    and c: "ctx = PostDetailView_get_context_data d obj"
    using assms by (auto simp: PostDetailView_get_def split: sum.splits)
  from o obtain x where x: "get_by_pk post_id k (posts d) = Inr x"
    by (auto simp: PostDetailView_get_object_def split: sum.splits)
  with o have "obj = x"
    by (auto simp: PostDetailView_get_object_def split: sum.splits if_splits option.splits)
  with x c get_by_pk_Inr [OF x] show ?thesis by blast
qed

lemma CommentEditView_dispatch_author_valid:
  assumes "distinct (map comment_id (comments d))"
    and "c \<in> set (comments d)"
    and "request_user r = Some v"
    and "user_id v = comment_author c"
    and "request_method r = POST"
    and "request_POST r = Some txt"
  shows "CommentEditView_dispatch d r k (comment_id c)
           = (Inr (HttpResponseRedirect
                    (reverse_post_detail (comment_post c) @ ''#comment_''
                       @ str_nat (comment_id c))),
              d\<lparr>comments := map (\<lambda>x. if comment_id x = comment_id c
                                       then c\<lparr>comment_text := txt\<rparr> else x)
                                (comments d)\<rparr>)"
proof -
  have g: "get_by_pk comment_id (comment_id c) (comments d) = Inr c"
    using assms(1,2) by (rule get_by_pk_stored)
  then have t: "CommentEditView_test_func d r (comment_id c) = Inr True"
    using assms(3,4) by (simp add: CommentEditView_test_func_def user_is_def)
  show ?thesis
    unfolding CommentEditView_dispatch_def t g authenticated_dispatch [OF assms(3)]
    using assms(5,6)
    by (simp add: UserPassesTestMixin_dispatch_def CommentEditView_get_success_url_def)
qed

lemma CommentDeleteView_dispatch_author_post:
  assumes "distinct (map comment_id (comments d))"
    and "c \<in> set (comments d)"
    and "request_user r = Some v"
    and "user_id v = comment_author c"
    and "request_method r = POST"
  shows "CommentDeleteView_dispatch d r k (comment_id c)
           = (Inr (HttpResponseRedirect (reverse_post_detail k)),
              d\<lparr>comments := filter (\<lambda>x. comment_id x \<noteq> comment_id c) (comments d)\<rparr>)"
proof -
  have g: "get_by_pk comment_id (comment_id c) (comments d) = Inr c"
    using assms(1,2) by (rule get_by_pk_stored)
  then have t: "CommentDeleteView_test_func d r (comment_id c) = Inr True"
    using assms(3,4) by (simp add: CommentDeleteView_test_func_def user_is_def)
  show ?thesis
    unfolding CommentDeleteView_dispatch_def t g authenticated_dispatch [OF assms(3)]
    using assms(5)
    by (simp add: UserPassesTestMixin_dispatch_def CommentDeleteView_get_success_url_def)
qed

lemma CommentEditView_dispatch_any_post_id:
  "CommentEditView_dispatch d r k j = CommentEditView_dispatch d r k' j"
  by (simp add: CommentEditView_dispatch_def)

lemma CommentDeleteView_dispatch_cases:
  "(\<exists>d'. CommentDeleteView_dispatch d r k j
            = (Inr (HttpResponseRedirect (reverse_post_detail k)), d')
        \<and> CommentDeleteView_dispatch d r k' j
            = (Inr (HttpResponseRedirect (reverse_post_detail k')), d'))
   \<or> (CommentDeleteView_dispatch d r k j = CommentDeleteView_dispatch d r k' j
        \<and> (\<forall>url. fst (CommentDeleteView_dispatch d r k j) \<noteq> Inr (HttpResponseRedirect url)))"
  by (auto simp: CommentDeleteView_dispatch_def LoginRequiredMixin_dispatch_def
      UserPassesTestMixin_dispatch_def handle_no_permission_def
      CommentDeleteView_get_success_url_def
      split: sum.splits http_method.splits)

lemma reverse_post_detail_7: "reverse_post_detail 7 = ''/posts/7/''"
  by (simp add: reverse_post_detail_def str_nat.simps)

lemma str_nat_3: "str_nat 3 = ''3''"
  by (simp add: str_nat.simps)

section \<open>Claims\<close>

text \<open>
  C1. Every stored post appears in the home listing exactly when it is visible to the
  public: it is published, its category is published, and its publication date is
  not after \<open>now\<close>. The category listing of a published category holds exactly the
  posts of that category that satisfy the same predicate.
\<close>

theorem home_and_category_listing_visibility:
  assumes "distinct (map category_id (categories d))"
  shows "(p \<in> fst ` set (PostListView_get_queryset d now))
           = (p \<in> set (posts d) \<and> is_visible_to_public d p now)
       \<and> (distinct (map category_slug (categories d))
            \<and> cat \<in> set (categories d) \<and> category_is_published cat
          \<longrightarrow> (\<exists>qs. CategoryPostsView_get_queryset d (category_slug cat) now = Inr qs
                 \<and> (p \<in> fst ` set qs)
                     = (p \<in> set (posts d) \<and> post_category p = category_id cat
                        \<and> is_visible_to_public d p now)))"
proof (intro conjI impI)
  show "(p \<in> fst ` set (PostListView_get_queryset d now))
           = (p \<in> set (posts d) \<and> is_visible_to_public d p now)"
    unfolding PostListView_get_queryset_def posts_of_listing
    by (simp add: category_join_visible [OF assms(1)])
next
  assume h: "distinct (map category_slug (categories d))
            \<and> cat \<in> set (categories d) \<and> category_is_published cat"
  have c: "get_object_or_404
             (\<lambda>c. category_slug c = category_slug cat \<and> category_is_published c)
             (categories d) = Inr cat"
    using h by (intro get_object_or_404_unique) simp_all
  show "\<exists>qs. CategoryPostsView_get_queryset d (category_slug cat) now = Inr qs
             \<and> (p \<in> fst ` set qs)
                 = (p \<in> set (posts d) \<and> post_category p = category_id cat
                    \<and> is_visible_to_public d p now)"
    unfolding CategoryPostsView_get_queryset_def c
    by (simp add: posts_of_listing category_join_visible [OF assms(1)] conj_ac)
qed

text \<open>
  The example database: the public post is listed, the draft and the future post
  are not; with the unpublished category alone, the public post is not listed.
\<close>

theorem home_and_category_listing_witness:
  "ex_public_post \<in> fst ` set (PostListView_get_queryset ex_db 100)
   \<and> ex_draft \<notin> fst ` set (PostListView_get_queryset ex_db 100)
   \<and> ex_future_post \<notin> fst ` set (PostListView_get_queryset ex_db 100)
   \<and> is_visible_to_public ex_db ex_public_post 100
   \<and> ex_public_post
       \<notin> fst ` set (PostListView_get_queryset (ex_db\<lparr>categories := [ex_secret]\<rparr>) 100)
   \<and> (\<exists>qs. CategoryPostsView_get_queryset ex_db ''travel'' 100 = Inr qs
         \<and> ex_public_post \<in> fst ` set qs)"
proof -
  let ?e = "ex_db\<lparr>categories := [ex_secret]\<rparr>"
  have h: "distinct (map category_id (categories ex_db))"
    by (simp add: ex_defs)
  have h': "distinct (map category_id (categories ?e))"
    by (simp add: ex_defs)
  have k: "distinct (map category_slug (categories ex_db))
    \<and> ex_travel \<in> set (categories ex_db) \<and> category_is_published ex_travel"
    by (simp add: ex_defs)
  have s: "category_slug ex_travel = ''travel''" by (simp add: ex_defs)
  have v: "is_visible_to_public ex_db ex_public_post 100"
    "\<not> is_visible_to_public ex_db ex_draft 100"
    "\<not> is_visible_to_public ex_db ex_future_post 100"
    "\<not> is_visible_to_public ?e ex_public_post 100"
    "ex_public_post \<in> set (posts ex_db)" "post_category ex_public_post = category_id ex_travel"
    by (simp_all add: is_visible_to_public_def get_category_def ex_defs)
  show ?thesis
    using home_and_category_listing_visibility [OF h, of ex_public_post 100 ex_travel]
      home_and_category_listing_visibility [OF h, of ex_draft 100 ex_travel]
      home_and_category_listing_visibility [OF h, of ex_future_post 100 ex_travel]
      home_and_category_listing_visibility [OF h', of ex_public_post 100 ex_travel] v k
    unfolding s by auto
qed

text \<open>
  C2. For a stored post and any viewer, the post-detail view raises \<open>Http404\<close> exactly
  when the post fails the visibility predicate and the viewer is not its author;
  in every other case it succeeds with the post as the object of its context.
  (Post keys are unique and the post's category row exists.)
\<close>

theorem post_detail_not_found_iff_hidden_from_viewer:
  assumes "distinct (map post_id (posts d))"
    and "p \<in> set (posts d)"
    and "post_category p \<in> category_id ` set (categories d)"
  shows "PostDetailView_get d viewer (post_id p) now
           = (if \<not> is_visible_to_public d p now \<and> \<not> user_is viewer (post_author p)
              then Inl Http404
              else Inr (PostDetailView_get_context_data d p))
         \<and> context_object (PostDetailView_get_context_data d p) = p"
proof -
  have obj: "get_by_pk post_id (post_id p) (posts d) = Inr p"
    using assms(1,2) by (rule get_by_pk_stored)
  obtain c where c: "get_category d (post_category p) = Some c"
  proof (cases "get_category d (post_category p)")
    case None
    then have "post_category p \<notin> category_id ` set (categories d)"
      by (auto simp: get_category_def find_None_iff)
    with assms(3) show ?thesis by simp
  next
    case (Some c)
    then show ?thesis by (rule that)
  qed
  have "PostDetailView_get_object d viewer (post_id p) now
          = (if \<not> is_visible_to_public d p now \<and> \<not> user_is viewer (post_author p)
             then Inl Http404 else Inr p)"
    unfolding PostDetailView_get_object_def obj
    by (auto simp: is_visible_to_public_def c)
  then show ?thesis
    by (simp add: PostDetailView_get_def PostDetailView_get_context_data_def)
qed

text \<open>
  The scenarios of the specification: the draft with key 5 is not found for an
  anonymous viewer and for bob, and is shown to alice, its author.
\<close>

theorem post_detail_witness:
  "PostDetailView_get ex_db None 5 100 = Inl Http404
   \<and> PostDetailView_get ex_db (Some ex_bob) 5 100 = Inl Http404
   \<and> PostDetailView_get ex_db (Some ex_alice) 5 100
       = Inr (PostDetailView_get_context_data ex_db ex_draft)
   \<and> PostDetailView_get ex_db None 1 100
       = Inr (PostDetailView_get_context_data ex_db ex_public_post)"
proof -
  have h: "distinct (map post_id (posts ex_db))" by (simp add: ex_defs)
  have d: "ex_draft \<in> set (posts ex_db)"
    "post_category ex_draft \<in> category_id ` set (categories ex_db)"
    by (simp_all add: ex_defs)
  have q: "ex_public_post \<in> set (posts ex_db)"
    "post_category ex_public_post \<in> category_id ` set (categories ex_db)"
    by (simp_all add: ex_defs)
  have v: "\<not> is_visible_to_public ex_db ex_draft 100"
    "is_visible_to_public ex_db ex_public_post 100"
    by (simp_all add: is_visible_to_public_def get_category_def ex_defs)
  have u: "\<not> user_is None (post_author ex_draft)"
    "\<not> user_is (Some ex_bob) (post_author ex_draft)"
    "user_is (Some ex_alice) (post_author ex_draft)"
    by (simp_all add: user_is_def ex_defs)
  have i: "post_id ex_draft = 5" "post_id ex_public_post = 1" by (simp_all add: ex_defs)
  show ?thesis
    using post_detail_not_found_iff_hidden_from_viewer [OF h d, of None 100]
      post_detail_not_found_iff_hidden_from_viewer [OF h d, of "Some ex_bob" 100]
      post_detail_not_found_iff_hidden_from_viewer [OF h d, of "Some ex_alice" 100]
      post_detail_not_found_iff_hidden_from_viewer [OF h q, of None 100]
    unfolding i using v u by simp
qed

text \<open>
  C3. In the profile listing of a post's author, the post appears whatever its
  publication state when the viewer is that author; for any other viewer it appears
  exactly when it is visible to the public.
\<close>

theorem profile_listing_owner_sees_all:
  assumes "distinct (map username (users d))"
    and "distinct (map category_id (categories d))"
    and "u \<in> set (users d)"
    and "p \<in> set (posts d)"
    and "post_author p = user_id u"
  shows "\<exists>qs. ProfileView_get_queryset d viewer (username u) now = Inr qs
           \<and> (p \<in> fst ` set qs)
               = (if user_is viewer (post_author p) then True
                  else is_visible_to_public d p now)"
proof -
  have prof: "get_object_or_404 (\<lambda>w. username w = username u) (users d) = Inr u"
    using assms(1,3) by (rule get_object_or_404_pk)
  show ?thesis
    unfolding ProfileView_get_queryset_def prof
    using assms(4,5)
    by (simp add: Let_def posts_of_listing category_join_visible [OF assms(2)])
qed

text \<open>Alice sees her draft and her future post on her profile; bob does not see the draft.\<close>

theorem profile_listing_witness:
  "(\<exists>qs. ProfileView_get_queryset ex_db (Some ex_alice) ''alice'' 100 = Inr qs
       \<and> ex_draft \<in> fst ` set qs)
   \<and> (\<exists>qs. ProfileView_get_queryset ex_db (Some ex_alice) ''alice'' 100 = Inr qs
       \<and> ex_future_post \<in> fst ` set qs)
   \<and> (\<exists>qs. ProfileView_get_queryset ex_db (Some ex_bob) ''alice'' 100 = Inr qs
       \<and> ex_draft \<notin> fst ` set qs)
   \<and> (\<exists>qs. ProfileView_get_queryset ex_db None ''alice'' 100 = Inr qs
       \<and> ex_public_post \<in> fst ` set qs)"
proof -
  have h: "distinct (map username (users ex_db))"
    "distinct (map category_id (categories ex_db))"
    "ex_alice \<in> set (users ex_db)"
    by (simp_all add: ex_defs)
  have d: "ex_draft \<in> set (posts ex_db)" "post_author ex_draft = user_id ex_alice"
    by (simp_all add: ex_defs)
  have f: "ex_future_post \<in> set (posts ex_db)" "post_author ex_future_post = user_id ex_alice"
    by (simp_all add: ex_defs)
  have q: "ex_public_post \<in> set (posts ex_db)" "post_author ex_public_post = user_id ex_alice"
    by (simp_all add: ex_defs)
  have n: "username ex_alice = ''alice''" by (simp add: ex_defs)
  have v: "\<not> is_visible_to_public ex_db ex_draft 100"
    "is_visible_to_public ex_db ex_public_post 100"
    by (simp_all add: is_visible_to_public_def get_category_def ex_defs)
  have u: "user_is (Some ex_alice) (post_author ex_draft)"
    "user_is (Some ex_alice) (post_author ex_future_post)"
    "\<not> user_is (Some ex_bob) (post_author ex_draft)"
    "\<not> user_is None (post_author ex_public_post)"
    by (simp_all add: user_is_def ex_defs)
  show ?thesis
    using profile_listing_owner_sees_all [OF h d, of "Some ex_alice" 100]
      profile_listing_owner_sees_all [OF h f, of "Some ex_alice" 100]
      profile_listing_owner_sees_all [OF h d, of "Some ex_bob" 100]
      profile_listing_owner_sees_all [OF h q, of None 100]
    unfolding n using v u by simp
qed

text \<open>
  C4. For a stored post and a viewer who is not its author (anonymous included), a
  post-edit request, whatever its method and form, is answered by a redirect to the
  post's detail page, and the database is the one before the request: no field of
  the post has changed.
\<close>

theorem post_edit_by_non_author_redirects_unchanged:
  assumes "distinct (map post_id (posts d))"
    and "p \<in> set (posts d)"
    and "\<not> user_is (request_user r) (post_author p)"
  shows "PostEditView_dispatch d r (post_id p)
           = (Inr (HttpResponseRedirect (reverse_post_detail (post_id p))), d)"
  using assms by (rule PostEditView_dispatch_non_author)

text \<open>Bob posts a valid edit form for alice's post: redirect, and the title is still the old one.\<close>

theorem post_edit_by_non_author_witness:
  "PostEditView_dispatch ex_db (ex_request (Some ex_bob) POST (Some ex_post_form)) 1
     = (Inr (HttpResponseRedirect ''/posts/1/''), ex_db)
   \<and> post_title ex_public_post = ''Hello''
   \<and> ex_public_post \<in> set (posts ex_db)"
proof -
  have h: "distinct (map post_id (posts ex_db))" "ex_public_post \<in> set (posts ex_db)"
    by (simp_all add: ex_defs)
  have u: "\<not> user_is (request_user (ex_request (Some ex_bob) POST (Some ex_post_form)))
              (post_author ex_public_post)"
    by (simp add: user_is_def ex_defs)
  have i: "post_id ex_public_post = 1" "post_title ex_public_post = ''Hello''"
    by (simp_all add: ex_defs)
  show ?thesis
    using post_edit_by_non_author_redirects_unchanged [OF h u] h(2)
    unfolding i reverse_post_detail_1 by simp
qed

text \<open>
  C5. An anonymous request to a login-required route is redirected to the login
  page. The code does so on post create, post delete, comment create, comment edit,
  comment delete and profile edit. \<open>PostEditView\<close> declares \<open>LoginRequiredMixin\<close> as
  they do, but its own \<open>dispatch\<close> fetches the object and redirects before
  \<open>super().dispatch\<close> reaches the mixin's check: the anonymous request for the
  stored post 1 is answered by a redirect to \<open>/posts/1/\<close>, not to the login page.
\<close>

theorem anonymous_post_edit_not_sent_to_login:
  "PostEditView_dispatch ex_db (ex_request None GET None) 1
     = (Inr (HttpResponseRedirect ''/posts/1/''), ex_db)
   \<and> PostEditView_dispatch ex_db (ex_request None POST (Some ex_post_form)) 1
     = (Inr (HttpResponseRedirect ''/posts/1/''), ex_db)
   \<and> fst (PostEditView_dispatch ex_db (ex_request None GET None) 1)
     \<noteq> Inr (RedirectToLogin ''/here/'')
   \<and> PostCreateView_dispatch True ex_db (ex_request None POST (Some ex_post_form))
     = (Inr (RedirectToLogin ''/here/''), ex_db)
   \<and> PostDeleteView_dispatch ex_db (ex_request None POST None) 1
     = (Inr (RedirectToLogin ''/here/''), ex_db)
   \<and> CommentCreateView_dispatch ex_db (ex_request None POST (Some ''Hi'')) 1 100
     = (Inr (RedirectToLogin ''/here/''), ex_db)
   \<and> CommentEditView_dispatch ex_db (ex_request None POST (Some ''Hi'')) 1 3
     = (Inr (RedirectToLogin ''/here/''), ex_db)
   \<and> CommentDeleteView_dispatch ex_db (ex_request None POST None) 1 3
     = (Inr (RedirectToLogin ''/here/''), ex_db)
   \<and> ProfileEditView_dispatch ex_db (ex_request None GET None)
     = (Inr (RedirectToLogin ''/here/''), ex_db)"
proof -
  let ?rg = "ex_request None GET None :: post_form request"
  let ?rp = "ex_request None POST (Some ex_post_form)"
  let ?rc = "ex_request None POST (Some ''Hi'')"
  let ?ru = "ex_request None POST (None :: unit option)"
  let ?rf = "ex_request None GET (None :: profile_form option)"
  have h: "distinct (map post_id (posts ex_db))" "ex_public_post \<in> set (posts ex_db)"
    by (simp_all add: ex_defs)
  have u: "\<not> user_is (request_user ?rg) (post_author ex_public_post)"
    "\<not> user_is (request_user ?rp) (post_author ex_public_post)"
    by (simp_all add: user_is_def ex_defs)
  have i: "post_id ex_public_post = 1" by (simp add: ex_defs)
  have a: "request_user ?rp = None" "request_user ?rc = None"
    "request_user ?ru = None" "request_user ?rf = None"
    by (simp_all add: ex_request_def)
  have pth: "request_path ?rp = ''/here/''" "request_path ?rc = ''/here/''"
    "request_path ?ru = ''/here/''" "request_path ?rf = ''/here/''"
    by (simp_all add: ex_request_def)
  have e: "PostEditView_dispatch ex_db ?rg 1 = (Inr (HttpResponseRedirect ''/posts/1/''), ex_db)"
    "PostEditView_dispatch ex_db ?rp 1 = (Inr (HttpResponseRedirect ''/posts/1/''), ex_db)"
    using PostEditView_dispatch_non_author [OF h u(1)]
      PostEditView_dispatch_non_author [OF h u(2)]
    unfolding i reverse_post_detail_1 by simp_all
  have l: "PostCreateView_dispatch True ex_db ?rp = (Inr (RedirectToLogin ''/here/''), ex_db)"
    "PostDeleteView_dispatch ex_db ?ru 1 = (Inr (RedirectToLogin ''/here/''), ex_db)"
    "CommentCreateView_dispatch ex_db ?rc 1 100 = (Inr (RedirectToLogin ''/here/''), ex_db)"
    "CommentEditView_dispatch ex_db ?rc 1 3 = (Inr (RedirectToLogin ''/here/''), ex_db)"
    "CommentDeleteView_dispatch ex_db ?ru 1 3 = (Inr (RedirectToLogin ''/here/''), ex_db)"
    "ProfileEditView_dispatch ex_db ?rf = (Inr (RedirectToLogin ''/here/''), ex_db)"
    unfolding PostCreateView_dispatch_def PostDeleteView_dispatch_def
      CommentCreateView_dispatch_def CommentEditView_dispatch_def
      CommentDeleteView_dispatch_def ProfileEditView_dispatch_def
      anonymous_no_permission [OF a(1)] anonymous_no_permission [OF a(2)]
      anonymous_no_permission [OF a(3)] anonymous_no_permission [OF a(4)] pth
    by simp_all
  from e l show ?thesis by simp
qed

text \<open>The response of the failing request, read off the theorem.\<close>

theorem anonymous_post_edit_response:
  "fst (PostEditView_dispatch ex_db (ex_request None GET None) 1)
     = Inr (HttpResponseRedirect ''/posts/1/'')"
  using anonymous_post_edit_not_sent_to_login by simp

text \<open>
  C6. For a stored comment and an authenticated viewer who is not its author, a
  comment-delete request (with any \<open>post_id\<close> in the URL) raises
  \<open>PermissionDenied\<close>, and the stored comments, hence the comment count of every
  post, are unchanged.
\<close>

theorem comment_delete_by_non_author_forbidden:
  assumes "distinct (map comment_id (comments d))"
    and "c \<in> set (comments d)"
    and "request_user r = Some v"
    and "user_id v \<noteq> comment_author c"
  shows "CommentDeleteView_dispatch d r k (comment_id c) = (Inl PermissionDenied, d)
       \<and> comments (snd (CommentDeleteView_dispatch d r k (comment_id c))) = comments d
       \<and> comment_count (snd (CommentDeleteView_dispatch d r k (comment_id c))) p
           = comment_count d p"
  using CommentDeleteView_dispatch_non_author [OF assms] by simp

text \<open>Alice tries to delete bob's comment: forbidden, and the post still has two comments.\<close>

theorem comment_delete_by_non_author_witness:
  "CommentDeleteView_dispatch ex_db (ex_request (Some ex_alice) POST None) 1 3
     = (Inl PermissionDenied, ex_db)
   \<and> comment_count ex_db ex_public_post = 2
   \<and> comment_count
         (snd (CommentDeleteView_dispatch ex_db (ex_request (Some ex_alice) POST None) 1 3))
         ex_public_post = 2"
proof -
  let ?r = "ex_request (Some ex_alice) POST (None :: unit option)"
  have h: "distinct (map comment_id (comments ex_db))" "ex_comment_late \<in> set (comments ex_db)"
    "request_user ?r = Some ex_alice" "user_id ex_alice \<noteq> comment_author ex_comment_late"
    by (simp_all add: ex_defs)
  have i: "comment_id ex_comment_late = 3" by (simp add: ex_defs)
  have n: "comment_count ex_db ex_public_post = 2"
    by (simp add: comment_count_def ex_defs)
  show ?thesis
    using comment_delete_by_non_author_forbidden [OF h, of 1 ex_public_post] n
    unfolding i by simp
qed

text \<open>
  C7. For a stored post and an authenticated user, a valid comment-create submission
  appends exactly one comment row, with a new key, the user as author and the post
  as post, and answers with a redirect to the post's detail page followed by the
  fragment \<open>#comment\<close> and the new comment's key.
\<close>

theorem comment_create_adds_one_comment_and_redirects_to_anchor:
  assumes "distinct (map post_id (posts d))"
    and "p \<in> set (posts d)"
    and "request_user r = Some u"
    and "request_method r = POST"
    and "request_POST r = Some txt"
  shows "\<exists>c. CommentCreateView_dispatch d r (post_id p) now
               = (Inr (HttpResponseRedirect
                        (reverse_post_detail (post_id p) @ ''#comment'' @ str_nat (comment_id c))),
                  d\<lparr>comments := comments d @ [c]\<rparr>)
            \<and> comment_id c \<notin> comment_id ` set (comments d)
            \<and> comment_author c = user_id u
            \<and> comment_post c = post_id p
            \<and> comment_text c = txt"
proof -
  let ?c = "\<lparr>comment_id = new_pk (map comment_id (comments d)), comment_text = txt,
             comment_created_at = now, comment_author = user_id u,
             comment_post = post_id p\<rparr>"
  have "comment_id ?c \<notin> comment_id ` set (comments d)"
    using new_pk_fresh [of "map comment_id (comments d)"] by simp
  moreover have "CommentCreateView_dispatch d r (post_id p) now
               = (Inr (HttpResponseRedirect
                        (reverse_post_detail (post_id p) @ ''#comment'' @ str_nat (comment_id ?c))),
                  d\<lparr>comments := comments d @ [?c]\<rparr>)"
    using CommentCreateView_dispatch_valid [OF assms] by simp
  ultimately show ?thesis
    by (intro exI [of _ ?c]) simp
qed

text \<open>Bob comments on the public post: the new comment has key 5.\<close>

theorem comment_create_witness:
  "\<exists>c. CommentCreateView_dispatch ex_db (ex_request (Some ex_bob) POST (Some ''Great'')) 1 100
          = (Inr (HttpResponseRedirect (''/posts/1/#comment'' @ str_nat (comment_id c))),
             ex_db\<lparr>comments := [ex_comment_late, ex_comment_early, c]\<rparr>)
       \<and> comment_author c = 2 \<and> comment_post c = 1 \<and> comment_text c = ''Great''
       \<and> comment_id c = 5 \<and> str_nat (comment_id c) = ''5''"
proof -
  let ?r = "ex_request (Some ex_bob) POST (Some ''Great'')"
  have h: "distinct (map post_id (posts ex_db))" "ex_public_post \<in> set (posts ex_db)"
    "request_user ?r = Some ex_bob" "request_method ?r = POST"
    "request_POST ?r = Some ''Great''"
    by (simp_all add: ex_defs)
  have i: "post_id ex_public_post = 1" "user_id ex_bob = 2"
    "comments ex_db = [ex_comment_late, ex_comment_early]"
    by (simp_all add: ex_defs)
  obtain c where
    "CommentCreateView_dispatch ex_db ?r (post_id ex_public_post) 100
       = (Inr (HttpResponseRedirect
                (reverse_post_detail (post_id ex_public_post) @ ''#comment''
                   @ str_nat (comment_id c))),
          ex_db\<lparr>comments := comments ex_db @ [c]\<rparr>)"
    "comment_author c = user_id ex_bob" "comment_post c = post_id ex_public_post"
    "comment_text c = ''Great''"
    using comment_create_adds_one_comment_and_redirects_to_anchor [OF h, of 100] by blast
  moreover from this(1) have "comment_id c = 5"
    unfolding CommentCreateView_dispatch_valid [OF h]
    by (auto simp: new_pk_def ex_defs)
  moreover have "str_nat 5 = ''5''" by (simp add: str_nat.simps)
  ultimately show ?thesis
    unfolding i reverse_post_detail_1 by (intro exI [of _ c]) simp
qed

text \<open>
  C8. When the detail view of a post succeeds, its context holds the post, an empty
  (unbound) comment form, and the comments of the post: exactly the stored comments
  whose post it is, each once, in ascending order of creation time, each paired
  with the user row of its author. (User keys are unique and every comment's author
  exists; the ordering is the one of \<open>Comment_Meta_ordering\<close>.)
\<close>

theorem post_detail_context_form_and_comments:
  assumes "PostDetailView_get d viewer k now = Inr ctx"
    and "distinct (map user_id (users d))"
    and "\<forall>c \<in> set (comments d). comment_author c \<in> user_id ` set (users d)"
  shows "context_object ctx \<in> set (posts d) \<and> post_id (context_object ctx) = k
       \<and> context_form ctx = CommentForm None
       \<and> set (map fst (context_comments ctx)) = {c \<in> set (comments d). comment_post c = k}
       \<and> length (context_comments ctx) = length (filter (\<lambda>c. comment_post c = k) (comments d))
       \<and> sorted (map (comment_created_at \<circ> fst) (context_comments ctx))
       \<and> (\<forall>(c, u) \<in> set (context_comments ctx).
             u \<in> set (users d) \<and> user_id u = comment_author c)"
proof -
  obtain obj where obj: "obj \<in> set (posts d)" "post_id obj = k"
    and ctx: "ctx = PostDetailView_get_context_data d obj"
    using PostDetailView_get_Inr [OF assms(1)] by blast
  have "\<forall>c \<in> set (post_comments d obj). comment_author c \<in> user_id ` set (users d)"
    using assms(3) by (simp add: post_comments_def Comment_Meta_ordering_def)
  then have fst: "map fst (context_comments ctx) = post_comments d obj"
    unfolding ctx PostDetailView_get_context_data_def
    using select_related_author_fst [OF assms(2)] by simp
  have s: "sorted (map comment_created_at (post_comments d obj))"
    by (simp add: post_comments_def Comment_Meta_ordering_def)
  have l: "length (map fst (context_comments ctx))
             = length (filter (\<lambda>c. comment_post c = k) (comments d))"
    unfolding fst by (simp add: post_comments_def Comment_Meta_ordering_def obj(2))
  have r: "\<forall>(c, u) \<in> set (context_comments ctx).
             u \<in> set (users d) \<and> user_id u = comment_author c"
    unfolding ctx PostDetailView_get_context_data_def
    using select_related_author_resolved by fastforce
  have m: "set (map fst (context_comments ctx)) = {c \<in> set (comments d). comment_post c = k}"
    unfolding fst by (auto simp: post_comments_def Comment_Meta_ordering_def obj(2))
  have so: "sorted (map (comment_created_at \<circ> fst) (context_comments ctx))"
    using s unfolding fst [symmetric] by (simp add: comp_def)
  have f: "context_form ctx = CommentForm None" "context_object ctx = obj"
    unfolding ctx by (simp_all add: PostDetailView_get_context_data_def)
  from obj f m l so r show ?thesis by simp
qed

text \<open>
  The public post of the example: its two comments are stored newest first and are
  shown oldest first, with alice and bob resolved.
\<close>

theorem post_detail_context_witness:
  "PostDetailView_get ex_db None 1 100
     = Inr \<lparr>context_object = ex_public_post, context_form = CommentForm None,
            context_comments = [(ex_comment_early, ex_alice), (ex_comment_late, ex_bob)]\<rparr>
   \<and> comments ex_db = [ex_comment_late, ex_comment_early]
   \<and> sorted (map (comment_created_at \<circ> fst)
               [(ex_comment_early, ex_alice), (ex_comment_late, ex_bob)])"
proof -
  have o: "get_by_pk post_id 1 (posts ex_db) = Inr ex_public_post"
    by (simp add: get_by_pk_def get_object_or_404_def ex_defs)
  have g: "PostDetailView_get_object ex_db None 1 100 = Inr ex_public_post"
    unfolding PostDetailView_get_object_def o
    by (simp add: get_category_def ex_defs)
  have pc: "post_comments ex_db ex_public_post = [ex_comment_early, ex_comment_late]"
    by (simp add: post_comments_def Comment_Meta_ordering_def ex_defs)
  have sr: "select_related_author ex_db [ex_comment_early, ex_comment_late]
              = [(ex_comment_early, ex_alice), (ex_comment_late, ex_bob)]"
    by (simp add: select_related_author_def ex_defs)
  have a: "PostDetailView_get ex_db None 1 100
     = Inr \<lparr>context_object = ex_public_post, context_form = CommentForm None,
            context_comments = [(ex_comment_early, ex_alice), (ex_comment_late, ex_bob)]\<rparr>"
    unfolding PostDetailView_get_def g
    by (simp add: PostDetailView_get_context_data_def pc sr)
  have h: "distinct (map user_id (users ex_db))"
    "\<forall>c \<in> set (comments ex_db). comment_author c \<in> user_id ` set (users ex_db)"
    by (simp_all add: ex_defs)
  show ?thesis
    using post_detail_context_form_and_comments [OF a h] a
    by (simp add: ex_db_def)
qed

text \<open>
  C9, as stated, fails for delete: \<open>CommentDeleteView.get_success_url\<close> is the plain
  detail URL of the \<open>post_id\<close> in the request's URL. Bob deletes his comment 3: the
  redirect is \<open>/posts/1/\<close>, without a fragment.
\<close>

theorem comment_delete_redirect_counterexample:
  "fst (CommentDeleteView_dispatch ex_db (ex_request (Some ex_bob) POST None) 1 3)
     = Inr (HttpResponseRedirect ''/posts/1/'')
   \<and> CHR ''#'' \<notin> set ''/posts/1/''"
proof -
  let ?r = "ex_request (Some ex_bob) POST (None :: unit option)"
  have h: "distinct (map comment_id (comments ex_db))" "ex_comment_late \<in> set (comments ex_db)"
    "request_user ?r = Some ex_bob" "user_id ex_bob = comment_author ex_comment_late"
    "request_method ?r = POST"
    by (simp_all add: ex_defs)
  have i: "comment_id ex_comment_late = 3" by (simp add: ex_defs)
  show ?thesis
    using CommentDeleteView_dispatch_author_post [OF h, of 1]
    unfolding i reverse_post_detail_1 by simp
qed

text \<open>
  C9, amended. A successful comment-edit request by the comment's author redirects
  to the detail page of the comment's post followed by the fragment
  \<open>#comment_\<close> and the comment's key. A successful comment-delete request by the
  author redirects to the detail page of the \<open>post_id\<close> of the URL, and that URL
  has no fragment.
\<close>

theorem comment_edit_anchor_delete_plain_redirect:
  assumes "distinct (map comment_id (comments d))"
    and "c \<in> set (comments d)"
    and "request_user re = Some v" and "request_user rd = Some v"
    and "user_id v = comment_author c"
    and "request_method re = POST" and "request_POST re = Some txt"
    and "request_method rd = POST"
  shows "fst (CommentEditView_dispatch d re k (comment_id c))
           = Inr (HttpResponseRedirect
                   (reverse_post_detail (comment_post c) @ ''#comment_''
                      @ str_nat (comment_id c)))
       \<and> fst (CommentDeleteView_dispatch d rd k (comment_id c))
           = Inr (HttpResponseRedirect (reverse_post_detail k))
       \<and> CHR ''#'' \<notin> set (reverse_post_detail k)"
  using CommentEditView_dispatch_author_valid [OF assms(1,2,3,5,6,7), of k]
    CommentDeleteView_dispatch_author_post [OF assms(1,2,4,5,8), of k]
    reverse_post_detail_no_fragment [of k]
  by simp

text \<open>Bob edits, and deletes, his comment 3 on post 1.\<close>

theorem comment_edit_delete_redirect_witness:
  "fst (CommentEditView_dispatch ex_db (ex_request (Some ex_bob) POST (Some ''Edited'')) 1 3)
     = Inr (HttpResponseRedirect ''/posts/1/#comment_3'')
   \<and> fst (CommentDeleteView_dispatch ex_db (ex_request (Some ex_bob) POST None) 1 3)
     = Inr (HttpResponseRedirect ''/posts/1/'')"
proof -
  let ?re = "ex_request (Some ex_bob) POST (Some ''Edited'')"
  let ?rd = "ex_request (Some ex_bob) POST (None :: unit option)"
  have h: "distinct (map comment_id (comments ex_db))" "ex_comment_late \<in> set (comments ex_db)"
    "request_user ?re = Some ex_bob" "request_user ?rd = Some ex_bob"
    "user_id ex_bob = comment_author ex_comment_late"
    "request_method ?re = POST" "request_POST ?re = Some ''Edited''"
    "request_method ?rd = POST"
    by (simp_all add: ex_defs)
  have i: "comment_id ex_comment_late = 3" "comment_post ex_comment_late = 1"
    by (simp_all add: ex_defs)
  show ?thesis
    using comment_edit_anchor_delete_plain_redirect [OF h, of 1]
    unfolding i reverse_post_detail_1 str_nat_3 by simp
qed

text \<open>
  C10. The comment-edit and comment-delete views never read the \<open>post_id\<close> of the
  URL for the object or the permission test. The edit view's whole outcome is the
  same for any two values of \<open>post_id\<close>. The delete view's resulting database is
  the same, and its response is the same except that a successful delete redirects
  to the detail page of the \<open>post_id\<close> it was given, whatever the comment's own
  post is; a successful edit redirects to the detail page of the comment's post.
\<close>

theorem comment_edit_delete_ignore_url_post_id:
  "CommentEditView_dispatch d re k j = CommentEditView_dispatch d re k' j
   \<and> snd (CommentDeleteView_dispatch d rd k j) = snd (CommentDeleteView_dispatch d rd k' j)
   \<and> (fst (CommentDeleteView_dispatch d rd k j) = fst (CommentDeleteView_dispatch d rd k' j)
        \<or> fst (CommentDeleteView_dispatch d rd k j)
              = Inr (HttpResponseRedirect (reverse_post_detail k))
            \<and> fst (CommentDeleteView_dispatch d rd k' j)
              = Inr (HttpResponseRedirect (reverse_post_detail k')))
   \<and> (distinct (map comment_id (comments d)) \<and> c \<in> set (comments d)
        \<and> request_user re = Some v \<and> request_user rd = Some v
        \<and> user_id v = comment_author c
        \<and> request_method re = POST \<and> request_POST re = Some txt
        \<and> request_method rd = POST
        \<longrightarrow>
          fst (CommentDeleteView_dispatch d rd k (comment_id c))
            = Inr (HttpResponseRedirect (reverse_post_detail k))
          \<and> fst (CommentEditView_dispatch d re k (comment_id c))
            = Inr (HttpResponseRedirect
                    (reverse_post_detail (comment_post c) @ ''#comment_''
                       @ str_nat (comment_id c))))"
proof -
  have a: "CommentEditView_dispatch d re k j = CommentEditView_dispatch d re k' j"
    by (rule CommentEditView_dispatch_any_post_id)
  have b: "snd (CommentDeleteView_dispatch d rd k j) = snd (CommentDeleteView_dispatch d rd k' j)
    \<and> (fst (CommentDeleteView_dispatch d rd k j) = fst (CommentDeleteView_dispatch d rd k' j)
        \<or> fst (CommentDeleteView_dispatch d rd k j)
              = Inr (HttpResponseRedirect (reverse_post_detail k))
            \<and> fst (CommentDeleteView_dispatch d rd k' j)
              = Inr (HttpResponseRedirect (reverse_post_detail k')))"
    using CommentDeleteView_dispatch_cases [of d rd k j k'] by auto
  have c: "fst (CommentDeleteView_dispatch d rd k (comment_id c))
            = Inr (HttpResponseRedirect (reverse_post_detail k))
          \<and> fst (CommentEditView_dispatch d re k (comment_id c))
            = Inr (HttpResponseRedirect
                    (reverse_post_detail (comment_post c) @ ''#comment_''
                       @ str_nat (comment_id c)))"
    if "distinct (map comment_id (comments d))" "c \<in> set (comments d)"
      "request_user re = Some v" "request_user rd = Some v"
      "user_id v = comment_author c"
      "request_method re = POST" "request_POST re = Some txt"
      "request_method rd = POST"
    using CommentEditView_dispatch_author_valid [OF that(1,2,3,5,6,7), of k]
      CommentDeleteView_dispatch_author_post [OF that(1,2,4,5,8), of k]
    by simp
  from a b c show ?thesis by blast
qed

text \<open>
  Bob's comment 3 belongs to post 1; requested under \<open>post_id = 7\<close>, the delete
  redirects to \<open>/posts/7/\<close> and the edit to \<open>/posts/1/#comment_3\<close>.
\<close>

theorem comment_edit_delete_url_post_id_witness:
  "comment_post ex_comment_late = 1
   \<and> fst (CommentDeleteView_dispatch ex_db (ex_request (Some ex_bob) POST None) 7 3)
     = Inr (HttpResponseRedirect ''/posts/7/'')
   \<and> fst (CommentEditView_dispatch ex_db (ex_request (Some ex_bob) POST (Some ''Edited'')) 7 3)
     = Inr (HttpResponseRedirect ''/posts/1/#comment_3'')
   \<and> CommentEditView_dispatch ex_db (ex_request (Some ex_bob) POST (Some ''Edited'')) 7 3
     = CommentEditView_dispatch ex_db (ex_request (Some ex_bob) POST (Some ''Edited'')) 1 3
   \<and> snd (CommentDeleteView_dispatch ex_db (ex_request (Some ex_bob) POST None) 7 3)
     = snd (CommentDeleteView_dispatch ex_db (ex_request (Some ex_bob) POST None) 1 3)"
proof -
  let ?re = "ex_request (Some ex_bob) POST (Some ''Edited'')"
  let ?rd = "ex_request (Some ex_bob) POST (None :: unit option)"
  have h: "distinct (map comment_id (comments ex_db)) \<and> ex_comment_late \<in> set (comments ex_db)
    \<and> request_user ?re = Some ex_bob \<and> request_user ?rd = Some ex_bob
    \<and> user_id ex_bob = comment_author ex_comment_late
    \<and> request_method ?re = POST \<and> request_POST ?re = Some ''Edited''
    \<and> request_method ?rd = POST"
    by (simp add: ex_defs)
  have i: "comment_id ex_comment_late = 3" "comment_post ex_comment_late = 1"
    by (simp_all add: ex_defs)
  have e: "''/posts/1/'' @ ''#comment_'' @ ''3'' = ''/posts/1/#comment_3''" by simp
  show ?thesis
    using comment_edit_delete_ignore_url_post_id
      [of ex_db ?re 7 3 1 ?rd ex_comment_late ex_bob "''Edited''"] h
    unfolding i reverse_post_detail_1 reverse_post_detail_7 str_nat_3 e by blast
qed

end
